theory Spec2Isabelle
  imports Main
begin

section \<open>The agentic API: health endpoints and the startup hook\<close>

text \<open>
  The program is \<^verbatim>\<open>src/agentic-api/main.py\<close>: a lifespan generator that configures
  telemetry and yields, an application object built with that lifespan, and two
  parameterless endpoints registered for \<^verbatim>\<open>GET /\<close> and \<^verbatim>\<open>GET /health\<close>.
\<close>

subsection \<open>Values, calls and the process state\<close>

text \<open>
  A Python exception value. Only its identity matters here, so it carries a name.
\<close>

datatype exn = Exn string

text \<open>
  How a Python call ends: it returns a value, it raises, or it never comes back.
\<close>

datatype 'a result = Return 'a | Raise exn | Hang

text \<open>
  The two dict literals of the source map string keys to string values; a dict keeps
  the order in which its keys were written, so it is an association list.
\<close>

type_synonym json_object = "(string \<times> string) list"

text \<open>
  What a client sends. The endpoints declare no parameter, so nothing of it reaches them;
  routing looks at the method and the path only.
\<close>

record request =
  req_method :: string
  req_path :: string
  req_query :: string
  req_headers :: "(string \<times> string) list"
  req_body :: string

text \<open>
  What the client gets back: a reply with a status code and the endpoint's object;
  the framework's error reply when an endpoint raises; nothing when an endpoint never
  returns; and \<open>NotRouted\<close> when no route of this module takes the request (the
  framework answers those itself, with its own pages and error replies).
\<close>

datatype reply = Reply nat json_object | ServerError exn | NoReply | NotRouted

text \<open>
  The history is the sequence of calls, control transfers and replies seen so far in this
  process, oldest first. \<open>Resumed\<close> and \<open>Thrown\<close> record what the context manager
  did with the generator when the context was left: it resumed the generator after its
  yield, or it raised an exception at the yield.
\<close>

datatype event =
    ConfigureCalled
  | ConfigureReturned
  | ConfigureRaised exn
  | Listening
  | Served request reply
  | Resumed
  | Thrown exn

text \<open>
  The state of the process: whatever global state the telemetry module owns (its type is
  left open), and the history.
\<close>

record 't world =
  telemetry :: 't
  history :: "event list"

type_synonym ('t, 'a) action = "'t world \<Rightarrow> 'a result \<times> 't world"

definition emit :: "event \<Rightarrow> 't world \<Rightarrow> 't world" where
  "emit e w = w\<lparr>history := history w @ [e]\<rparr>"

definition fresh :: "'t \<Rightarrow> 't world" where
  "fresh t = \<lparr>telemetry = t, history = []\<rparr>"

subsection \<open>The telemetry call\<close>

text \<open>
  \<^verbatim>\<open>telemetry.configure_opentelemetry()\<close> is imported, not defined, by the source. Its
  body is a parameter \<open>cfg\<close>: any function from the telemetry module's state to an
  outcome and a new state. The call itself is recorded in the history.
\<close>

type_synonym 't configure = "'t \<Rightarrow> unit result \<times> 't"

definition configure_opentelemetry :: "'t configure \<Rightarrow> ('t, unit) action" where
  "configure_opentelemetry cfg w =
     (let w1 = emit ConfigureCalled w in
      case cfg (telemetry w1) of
        (Return u, t) \<Rightarrow> (Return (), emit ConfigureReturned (w1\<lparr>telemetry := t\<rparr>))
      | (Raise e, t) \<Rightarrow> (Raise e, emit (ConfigureRaised e) (w1\<lparr>telemetry := t\<rparr>))
      | (Hang, t) \<Rightarrow> (Hang, w1\<lparr>telemetry := t\<rparr>))"

subsection \<open>The lifespan generator\<close>

text \<open>
  \<^verbatim>\<open>
  @contextlib.asynccontextmanager
  async def lifespan(app: fastapi.FastAPI):
      telemetry.configure_opentelemetry()
      yield
  \<close>
  A generator function with a single \<^verbatim>\<open>yield\<close> that is not inside a \<^verbatim>\<open>try\<close> is
  the code before the yield and the code after it. Here the code before is the telemetry
  call and the code after is empty.
\<close>

record 't generator =
  before_yield :: "('t, unit) action"
  after_yield :: "('t, unit) action"

definition lifespan :: "'t configure \<Rightarrow> 't generator" where
  "lifespan cfg =
     \<lparr>before_yield = configure_opentelemetry cfg,
      after_yield = (\<lambda>w. (Return (), w))\<rparr>"

text \<open>
  \<^verbatim>\<open>contextlib.asynccontextmanager\<close> turns the generator into a context manager.
  Entering runs the generator up to its yield. Leaving without an exception resumes the
  generator, which runs the code after the yield. Leaving with an exception raises that
  exception at the yield: with no \<^verbatim>\<open>try\<close> around the yield nothing handles it, the
  code after the yield is not run and the same exception comes out again.
\<close>

definition aenter :: "'t generator \<Rightarrow> ('t, unit) action" where
  "aenter g w = before_yield g w"

definition aexit :: "'t generator \<Rightarrow> exn option \<Rightarrow> ('t, unit) action" where
  "aexit g thrown w =
     (case thrown of
        None \<Rightarrow> after_yield g (emit Resumed w)
      | Some e \<Rightarrow> (Raise e, emit (Thrown e) w))"

text \<open>
  \<^verbatim>\<open>async with g: body\<close>. When entering fails the body is never run. Otherwise the
  body runs and the context is left, with the body's exception if it raised one.
\<close>

definition async_with :: "'t generator \<Rightarrow> ('t, unit) action \<Rightarrow> ('t, unit) action" where
  "async_with g body w =
     (case aenter g w of
        (Return u, w1) \<Rightarrow>
          (case body w1 of
             (Return v, w2) \<Rightarrow> aexit g None w2
           | (Raise e, w2) \<Rightarrow> aexit g (Some e) w2
           | (Hang, w2) \<Rightarrow> (Hang, w2))
      | (Raise e, w1) \<Rightarrow> (Raise e, w1)
      | (Hang, w1) \<Rightarrow> (Hang, w1))"

subsection \<open>The endpoints\<close>

text \<open>
  \<^verbatim>\<open>
  async def root():
      return {"status": "healthy", "message": "Agentic API is running"}

  async def health():
      return {"status": "healthy"}
  \<close>
  Each takes the process state and hands it back, so that what an endpoint does to the
  state is part of its result.
\<close>

definition root :: "('t, json_object) action" where
  "root w = (Return [(''status'', ''healthy''), (''message'', ''Agentic API is running'')], w)"

definition health :: "('t, json_object) action" where
  "health w = (Return [(''status'', ''healthy'')], w)"

subsection \<open>Routes\<close>

text \<open>
  \<^verbatim>\<open>@app.get(path)\<close> registers the decorated function for the method GET at exactly that
  path. The decorator is given no \<^verbatim>\<open>status_code\<close>, so the field is empty and the
  framework's default applies.
\<close>

record 't route =
  route_path :: string
  route_methods :: "string list"
  status_code :: "nat option"
  endpoint :: "('t, json_object) action"

definition app_get :: "string \<Rightarrow> ('t, json_object) action \<Rightarrow> 't route" where
  "app_get p f = \<lparr>route_path = p, route_methods = [''GET''], status_code = None, endpoint = f\<rparr>"

definition default_status_code :: nat where
  "default_status_code = 200"

text \<open>The routes of this module, in the order in which the decorators run.\<close>

definition routes :: "'t route list" where
  "routes = [app_get ''/'' root, app_get ''/health'' health]"

definition matches :: "request \<Rightarrow> 't route \<Rightarrow> bool" where
  "matches r rt \<longleftrightarrow> req_path r = route_path rt \<and> req_method r \<in> set (route_methods rt)"

fun find_route :: "request \<Rightarrow> 't route list \<Rightarrow> 't route option" where
  "find_route r [] = None"
| "find_route r (rt # rts) = (if matches r rt then Some rt else find_route r rts)"

text \<open>
  Serving one request: the first matching route's endpoint is called; what it returns is
  sent with the route's status code, or the default.
\<close>

definition handle_request :: "request \<Rightarrow> 't world \<Rightarrow> reply \<times> 't world" where
  "handle_request r w =
     (case find_route r routes of
        None \<Rightarrow> (NotRouted, w)
      | Some rt \<Rightarrow>
          (case endpoint rt w of
             (Return b, w') \<Rightarrow>
               (Reply (case status_code rt of None \<Rightarrow> default_status_code | Some c \<Rightarrow> c) b, w')
           | (Raise e, w') \<Rightarrow> (ServerError e, w')
           | (Hang, w') \<Rightarrow> (NoReply, w')))"

subsection \<open>The application and its host\<close>

text \<open>
  \<^verbatim>\<open>app = fastapi.FastAPI(lifespan=lifespan)\<close> registers the lifespan with the
  application; it is the server hosting the application that decides when the lifespan
  context is entered and left. An endpoint has no point at which it waits, so requests
  are served one at a time.

  \<open>serving\<close> is a stretch of the service's lifetime: it listens, answers the requests
  that arrive, and ends either because it was asked to stop (\<open>None\<close>) or with an
  exception (\<open>Some e\<close>).

  \<open>run_app\<close> is what a host that follows the lifespan protocol does: it enters the
  lifespan context, serves inside it, and leaves it when serving ends.
\<close>

fun serve_all :: "request list \<Rightarrow> 't world \<Rightarrow> 't world" where
  "serve_all [] w = w"
| "serve_all (r # rs) w =
     (case handle_request r w of (rep, w') \<Rightarrow> serve_all rs (emit (Served r rep) w'))"

definition serving :: "request list \<Rightarrow> exn option \<Rightarrow> ('t, unit) action" where
  "serving reqs stop w =
     (let w' = serve_all reqs (emit Listening w) in
      case stop of None \<Rightarrow> (Return (), w') | Some e \<Rightarrow> (Raise e, w'))"

definition run_app :: "'t configure \<Rightarrow> request list \<Rightarrow> exn option \<Rightarrow> ('t, unit) action" where
  "run_app cfg reqs stop w = async_with (lifespan cfg) (serving reqs stop) w"

text \<open>
  Nothing in the source ties serving to the lifespan: the routes answer a request whether
  or not the context was ever entered, and nothing keeps a host from entering it again.
  So a process is any sequence of phases chosen by its host. In an \<open>Inside\<close> phase the
  host follows the lifespan protocol (\<open>run_app\<close>); in an \<open>Outside\<close> phase it passes
  requests to the application without entering the context. A phase that never ends is
  the last one.
\<close>

datatype host_phase = Inside "request list" "exn option" | Outside "request list"

fun inside :: "host_phase \<Rightarrow> bool" where
  "inside (Inside reqs stop) = True"
| "inside (Outside reqs) = False"

fun host_run :: "'t configure \<Rightarrow> host_phase list \<Rightarrow> 't world \<Rightarrow> 't world" where
  "host_run cfg [] w = w"
| "host_run cfg (Outside reqs # ps) w = host_run cfg ps (snd (serving reqs None w))"
| "host_run cfg (Inside reqs stop # ps) w =
     (case run_app cfg reqs stop w of
        (Return u, w') \<Rightarrow> host_run cfg ps w'
      | (Raise e, w') \<Rightarrow> host_run cfg ps w'
      | (Hang, w') \<Rightarrow> w')"

text \<open>The events that show the service answering clients.\<close>

fun serving_event :: "event \<Rightarrow> bool" where
  "serving_event Listening = True"
| "serving_event (Served r rep) = True"
| "serving_event ev = False"

subsection \<open>Reading results\<close>

text \<open>No serving event comes before the first \<open>ConfigureReturned\<close> of a history.\<close>

fun configured_first :: "event list \<Rightarrow> bool" where
  "configured_first [] = True"
| "configured_first (ev # evs) =
     (if ev = ConfigureReturned then True else \<not> serving_event ev \<and> configured_first evs)"

text \<open>
  \<^verbatim>\<open>body[k]\<close> on the object of a reply. The keys of each literal are distinct, so the
  first entry for a key is the only one.
\<close>

definition body_field :: "string \<Rightarrow> reply \<Rightarrow> string option" where
  "body_field k rep = (case rep of Reply c b \<Rightarrow> map_of b k | _ \<Rightarrow> None)"

section \<open>Properties\<close>

subsection \<open>Routing helpers\<close>

lemma find_route_root:
  "req_method r = ''GET'' \<Longrightarrow> req_path r = ''/'' \<Longrightarrow>
     find_route r (routes :: 't route list) = Some (app_get ''/'' root)"
  by (simp add: routes_def matches_def app_get_def)

lemma find_route_health:
  "req_method r = ''GET'' \<Longrightarrow> req_path r = ''/health'' \<Longrightarrow>
     find_route r (routes :: 't route list) = Some (app_get ''/health'' health)"
  by (simp add: routes_def matches_def app_get_def)

lemma handle_root:
  "req_method r = ''GET'' \<Longrightarrow> req_path r = ''/'' \<Longrightarrow>
     handle_request r w =
       (Reply 200 [(''status'', ''healthy''), (''message'', ''Agentic API is running'')], w)"
  by (simp add: handle_request_def find_route_root app_get_def root_def default_status_code_def)

lemma handle_health:
  "req_method r = ''GET'' \<Longrightarrow> req_path r = ''/health'' \<Longrightarrow>
     handle_request r w = (Reply 200 [(''status'', ''healthy'')], w)"
  by (simp add: handle_request_def find_route_health app_get_def health_def
      default_status_code_def)

lemma handle_request_eq:
  "handle_request r w =
     (if req_method r = ''GET'' \<and> req_path r = ''/'' then
        Reply 200 [(''status'', ''healthy''), (''message'', ''Agentic API is running'')]
      else if req_method r = ''GET'' \<and> req_path r = ''/health'' then
        Reply 200 [(''status'', ''healthy'')]
      else NotRouted, w)"
  by (simp add: handle_request_def routes_def matches_def app_get_def root_def health_def
      default_status_code_def)

lemma handle_request_world: "snd (handle_request r w) = w"
  by (simp add: handle_request_eq)

lemma handle_request_any_world: "fst (handle_request r w) = fst (handle_request r w')"
  by (simp add: handle_request_eq)

lemma serve_all_eq:
  "serve_all rs w = w\<lparr>history := history w @ map (\<lambda>r. Served r (fst (handle_request r w))) rs\<rparr>"
proof (induction rs arbitrary: w)
  case Nil
  show ?case by simp
next
  case (Cons r rs)
  have step: "handle_request r w = (fst (handle_request r w), w)"
    by (metis handle_request_world prod.collapse)
  have same: "\<And>q. fst (handle_request q (emit (Served r (fst (handle_request r w))) w))
                 = fst (handle_request q w)"
    by (rule handle_request_any_world)
  show ?case
    apply (subst serve_all.simps)
    apply (subst step)
    apply (simp add: Cons.IH same)
    apply (simp add: emit_def)
    done
qed

lemma enter_returns:
  "cfg (telemetry w) = (Return u, t') \<Longrightarrow>
     aenter (lifespan cfg) w =
       (Return (), \<lparr>telemetry = t', history = history w @ [ConfigureCalled, ConfigureReturned]\<rparr>)"
  by (simp add: aenter_def lifespan_def configure_opentelemetry_def emit_def)

lemma enter_raises:
  "cfg (telemetry w) = (Raise e, t') \<Longrightarrow>
     aenter (lifespan cfg) w =
       (Raise e, \<lparr>telemetry = t', history = history w @ [ConfigureCalled, ConfigureRaised e]\<rparr>)"
  by (simp add: aenter_def lifespan_def configure_opentelemetry_def emit_def)

lemma enter_hangs:
  "cfg (telemetry w) = (Hang, t') \<Longrightarrow>
     aenter (lifespan cfg) w =
       (Hang, \<lparr>telemetry = t', history = history w @ [ConfigureCalled]\<rparr>)"
  by (simp add: aenter_def lifespan_def configure_opentelemetry_def emit_def)

lemma exit_eq:
  "aexit (lifespan cfg) thrown w =
     (case thrown of
        None \<Rightarrow> (Return (), emit Resumed w)
      | Some e \<Rightarrow> (Raise e, emit (Thrown e) w))"
  by (simp add: aexit_def lifespan_def split: option.splits)

lemma serving_eq:
  "serving reqs stop w =
     (case stop of None \<Rightarrow> Return () | Some e \<Rightarrow> Raise e,
      w\<lparr>history := history w @ Listening # map (\<lambda>r. Served r (fst (handle_request r w))) reqs\<rparr>)"
proof -
  have same: "\<And>q. fst (handle_request q (emit Listening w)) = fst (handle_request q w)"
    by (rule handle_request_any_world)
  show ?thesis
    by (simp add: serving_def serve_all_eq emit_def handle_request_eq split: option.splits)
qed

lemma run_app_returns:
  assumes "cfg (telemetry w) = (Return u, t')"
  shows "run_app cfg reqs stop w =
     (case stop of None \<Rightarrow> Return () | Some e \<Rightarrow> Raise e,
      \<lparr>telemetry = t',
       history = history w @ [ConfigureCalled, ConfigureReturned, Listening]
                 @ map (\<lambda>r. Served r (fst (handle_request r w))) reqs
                 @ [case stop of None \<Rightarrow> Resumed | Some e \<Rightarrow> Thrown e]\<rparr>)"
  unfolding run_app_def async_with_def enter_returns [of cfg w, OF assms] serving_eq exit_eq
  by (simp add: handle_request_eq emit_def split: option.splits)

lemma run_app_raises:
  assumes "cfg (telemetry w) = (Raise e, t')"
  shows "run_app cfg reqs stop w =
     (Raise e, \<lparr>telemetry = t', history = history w @ [ConfigureCalled, ConfigureRaised e]\<rparr>)"
  unfolding run_app_def async_with_def enter_raises [of cfg w, OF assms] by simp

lemma run_app_hangs:
  assumes "cfg (telemetry w) = (Hang, t')"
  shows "run_app cfg reqs stop w =
     (Hang, \<lparr>telemetry = t', history = history w @ [ConfigureCalled]\<rparr>)"
  unfolding run_app_def async_with_def enter_hangs [of cfg w, OF assms] by simp

lemma history_fresh: "history (fresh t) = []"
  by (simp add: fresh_def)


lemma run_app_cases:
  obtains (returns) u t' where "cfg (telemetry w) = (Return u, t')"
        | (raises) e t' where "cfg (telemetry w) = (Raise e, t')"
        | (hangs) t' where "cfg (telemetry w) = (Hang, t')"
  by (cases "cfg (telemetry w)"; cases "fst (cfg (telemetry w))") auto

lemma configured_first_append:
  "configured_first (h @ k) \<longleftrightarrow>
     configured_first h \<and> (ConfigureReturned \<in> set h \<or> configured_first k)"
  by (induction h) auto

lemma configured_first_split:
  "configured_first (pre @ ev # post) \<Longrightarrow> serving_event ev \<Longrightarrow>
     ConfigureReturned \<in> set pre"
  by (induction pre) (auto split: if_splits)

lemma configured_first_served:
  "configured_first (map (\<lambda>r. Served r (f r)) reqs @ k) \<longleftrightarrow> reqs = [] \<and> configured_first k"
  by (cases reqs) auto

lemma run_app_configured_first:
  assumes "configured_first (history w)"
  shows "configured_first (history (snd (run_app cfg reqs stop w)))"
proof (cases rule: run_app_cases [of cfg w])
  case (returns u t')
  show ?thesis
    using assms by (simp add: run_app_returns [of cfg w, OF returns] configured_first_append)
next
  case (raises e t')
  show ?thesis
    using assms by (simp add: run_app_raises [of cfg w, OF raises] configured_first_append)
next
  case (hangs t')
  show ?thesis
    using assms by (simp add: run_app_hangs [of cfg w, OF hangs] configured_first_append)
qed

lemma host_run_configured_first:
  "list_all inside ps \<Longrightarrow> configured_first (history w) \<Longrightarrow>
     configured_first (history (host_run cfg ps w))"
proof (induction ps arbitrary: w)
  case Nil
  then show ?case by simp
next
  case (Cons p ps)
  then obtain reqs stop where p: "p = Inside reqs stop"
    by (cases p) auto
  have step: "configured_first (history (snd (run_app cfg reqs stop w)))"
    using Cons.prems(2) by (rule run_app_configured_first)
  from Cons.prems(1) have rest: "list_all inside ps" by simp
  show ?case
  proof (cases "run_app cfg reqs stop w")
    case (Pair r w')
    with step have w': "configured_first (history w')" by simp
    show ?thesis
      using Cons.IH [OF rest w'] w' by (cases r) (simp_all add: p Pair)
  qed
qed

lemma count_served:
  "count_list (map (\<lambda>r. Served r (f r)) reqs) ConfigureCalled = 0"
  by (induction reqs) auto

lemma run_app_count:
  "count_list (history (snd (run_app cfg reqs stop w))) ConfigureCalled
     = Suc (count_list (history w) ConfigureCalled)"
proof (cases rule: run_app_cases [of cfg w])
  case (returns u t')
  show ?thesis
    by (simp add: run_app_returns [of cfg w, OF returns] count_served split: option.splits)
next
  case (raises e t')
  show ?thesis by (simp add: run_app_raises [of cfg w, OF raises])
next
  case (hangs t')
  show ?thesis by (simp add: run_app_hangs [of cfg w, OF hangs])
qed

lemma serving_count:
  "count_list (history (snd (serving reqs stop w))) ConfigureCalled
     = count_list (history w) ConfigureCalled"
  by (simp add: serving_eq count_served)

lemma host_run_count_outside:
  "filter inside ps = [] \<Longrightarrow>
     count_list (history (host_run cfg ps w)) ConfigureCalled
       = count_list (history w) ConfigureCalled"
proof (induction ps arbitrary: w)
  case Nil
  then show ?case by simp
next
  case (Cons p ps)
  then obtain reqs where p: "p = Outside reqs"
    by (cases p) (auto split: if_splits)
  from Cons.prems have "filter inside ps = []" by (simp add: p)
  from Cons.IH [OF this] show ?case by (simp add: p serving_count)
qed

lemma host_run_count_one:
  "length (filter inside ps) = 1 \<Longrightarrow>
     count_list (history (host_run cfg ps w)) ConfigureCalled
       = Suc (count_list (history w) ConfigureCalled)"
proof (induction ps arbitrary: w)
  case Nil
  then show ?case by simp
next
  case (Cons p ps)
  show ?case
  proof (cases p)
    case (Outside reqs)
    with Cons.prems have "length (filter inside ps) = 1" by simp
    from Cons.IH [OF this] show ?thesis by (simp add: Outside serving_count)
  next
    case (Inside reqs stop)
    with Cons.prems have none: "filter inside ps = []" by simp
    obtain r w' where run: "run_app cfg reqs stop w = (r, w')"
      by (cases "run_app cfg reqs stop w")
    have one: "count_list (history w') ConfigureCalled = Suc (count_list (history w) ConfigureCalled)"
      using run_app_count [of cfg reqs stop w] by (simp add: run)
    show ?thesis
      by (cases r) (simp_all add: Inside run one host_run_count_outside [OF none])
  qed
qed

lemma host_run_count_le:
  "count_list (history (host_run cfg ps w)) ConfigureCalled
     \<le> count_list (history w) ConfigureCalled + length (filter inside ps)"
proof (induction ps arbitrary: w)
  case Nil
  then show ?case by simp
next
  case (Cons p ps)
  show ?case
  proof (cases p)
    case (Outside reqs)
    show ?thesis
      using Cons.IH [of "snd (serving reqs None w)"] by (simp add: Outside serving_count)
  next
    case (Inside reqs stop)
    obtain r w' where run: "run_app cfg reqs stop w = (r, w')"
      by (cases "run_app cfg reqs stop w")
    have one: "count_list (history w') ConfigureCalled = Suc (count_list (history w) ConfigureCalled)"
      using run_app_count [of cfg reqs stop w] by (simp add: run)
    show ?thesis
      using Cons.IH [of w'] by (cases r) (simp_all add: Inside run one)
  qed
qed

subsection \<open>The fixed responses\<close>

text \<open>
  Claim C1. Every call of the endpoint \<open>root\<close> returns the object
  \<^verbatim>\<open>{"status": "healthy", "message": "Agentic API is running"}\<close>, and every request with
  method GET and path \<^verbatim>\<open>/\<close>, whatever else it carries and whatever the state of the
  process, is answered with status 200 and that object.
\<close>

theorem root_fixed_response:
  assumes "req_method r = ''GET''" and "req_path r = ''/''"
  shows "fst (root w) = Return [(''status'', ''healthy''), (''message'', ''Agentic API is running'')]
       \<and> fst (handle_request r w) =
           Reply 200 [(''status'', ''healthy''), (''message'', ''Agentic API is running'')]"
  using assms by (simp add: handle_root root_def)

theorem root_fixed_response_witness:
  "fst (handle_request
         \<lparr>req_method = ''GET'', req_path = ''/'', req_query = ''x=1'',
          req_headers = [(''accept'', ''*/*'')], req_body = ''''\<rparr>
         (fresh (0::nat))) =
     Reply 200 [(''status'', ''healthy''), (''message'', ''Agentic API is running'')]"
  using root_fixed_response
    [of "\<lparr>req_method = ''GET'', req_path = ''/'', req_query = ''x=1'',
          req_headers = [(''accept'', ''*/*'')], req_body = ''''\<rparr>" "fresh (0::nat)"]
  by simp

text \<open>
  Claim C2. Every call of the endpoint \<open>health\<close> returns the object
  \<^verbatim>\<open>{"status": "healthy"}\<close>, and every request with method GET and path \<^verbatim>\<open>/health\<close> is
  answered with status 200 and that object.
\<close>

theorem health_fixed_response:
  assumes "req_method r = ''GET''" and "req_path r = ''/health''"
  shows "fst (health w) = Return [(''status'', ''healthy'')]
       \<and> fst (handle_request r w) = Reply 200 [(''status'', ''healthy'')]"
  using assms by (simp add: handle_health health_def)

theorem health_fixed_response_witness:
  "fst (handle_request
         \<lparr>req_method = ''GET'', req_path = ''/health'', req_query = '''',
          req_headers = [], req_body = ''ignored''\<rparr>
         (fresh (7::nat))) =
     Reply 200 [(''status'', ''healthy'')]"
  using health_fixed_response
    [of "\<lparr>req_method = ''GET'', req_path = ''/health'', req_query = '''',
          req_headers = [], req_body = ''ignored''\<rparr>" "fresh (7::nat)"]
  by simp

subsection \<open>The startup hook\<close>

text \<open>
  Claim C3, as the code has it. The hook runs \<^verbatim>\<open>configure()\<close> to completion before its
  yield: when entering the context succeeds, the call and its return are the last two
  events. And in a process whose host serves only inside the lifespan context, whatever
  the telemetry call does and whatever requests arrive, the service listens and serves
  a request only after \<^verbatim>\<open>configure()\<close> has returned: every \<open>Listening\<close> and every
  \<open>Served\<close> event has \<open>ConfigureReturned\<close> before it.
\<close>

theorem no_request_before_configure_returned:
  assumes host: "list_all inside phases"
      and run: "history (host_run cfg phases (fresh t)) = pre @ ev # post"
      and ev: "ev = Listening \<or> (\<exists>r rep. ev = Served r rep)"
      and enter: "fst (aenter (lifespan cfg) w) = Return ()"
  shows "ConfigureReturned \<in> set pre
       \<and> history (snd (aenter (lifespan cfg) w))
           = history w @ [ConfigureCalled, ConfigureReturned]"
proof -
  have "configured_first (history (fresh t))"
    by (simp add: history_fresh)
  with host have "configured_first (history (host_run cfg phases (fresh t)))"
    by (rule host_run_configured_first)
  with run have "configured_first (pre @ ev # post)"
    by simp
  moreover from ev have "serving_event ev"
    by auto
  ultimately have "ConfigureReturned \<in> set pre"
    by (rule configured_first_split)
  moreover have "history (snd (aenter (lifespan cfg) w))
                   = history w @ [ConfigureCalled, ConfigureReturned]"
  proof (cases rule: run_app_cases [of cfg w])
    case (returns u t')
    show ?thesis by (simp add: enter_returns [of cfg w, OF returns])
  next
    case (raises e t')
    with enter show ?thesis by (simp add: enter_raises [of cfg w, OF raises])
  next
    case (hangs t')
    with enter show ?thesis by (simp add: enter_hangs [of cfg w, OF hangs])
  qed
  ultimately show ?thesis by simp
qed

theorem no_request_before_configure_returned_witness:
  "history (host_run (\<lambda>n::nat. (Return (), Suc n))
       [Inside [\<lparr>req_method = ''GET'', req_path = ''/health'', req_query = [],
                 req_headers = [], req_body = []\<rparr>] None] (fresh 0)) =
     [ConfigureCalled, ConfigureReturned, Listening,
      Served \<lparr>req_method = ''GET'', req_path = ''/health'', req_query = [],
               req_headers = [], req_body = []\<rparr> (Reply 200 [(''status'', ''healthy'')]),
      Resumed]
   \<and> ConfigureReturned \<in> set [ConfigureCalled, ConfigureReturned, Listening]"
  using no_request_before_configure_returned
    [of "[Inside [\<lparr>req_method = ''GET'', req_path = ''/health'', req_query = [],
                    req_headers = [], req_body = []\<rparr>] None]"
        "\<lambda>n::nat. (Return (), Suc n)" 0
        "[ConfigureCalled, ConfigureReturned, Listening]"
        "Served \<lparr>req_method = ''GET'', req_path = ''/health'', req_query = [],
                  req_headers = [], req_body = []\<rparr> (Reply 200 [(''status'', ''healthy'')])"
        "[Resumed]" "fresh 0"]
  by (simp add: run_app_returns enter_returns fresh_def handle_request_eq)

text \<open>
  The claim as the specification words it, for every execution, does not hold: a host
  that passes a request to the application without entering the lifespan context gets
  it answered, and \<^verbatim>\<open>configure()\<close> was never called.
\<close>

theorem request_served_without_configure_counterexample:
  "history (host_run (\<lambda>n::nat. (Return (), Suc n))
       [Outside [\<lparr>req_method = ''GET'', req_path = ''/health'', req_query = [],
                  req_headers = [], req_body = []\<rparr>]] (fresh 0)) =
     [Listening,
      Served \<lparr>req_method = ''GET'', req_path = ''/health'', req_query = [],
               req_headers = [], req_body = []\<rparr> (Reply 200 [(''status'', ''healthy'')])]
   \<and> ConfigureReturned \<notin> set (history (host_run (\<lambda>n::nat. (Return (), Suc n))
       [Outside [\<lparr>req_method = ''GET'', req_path = ''/health'', req_query = [],
                  req_headers = [], req_body = []\<rparr>]] (fresh 0)))"
  by (simp add: serving_eq fresh_def handle_request_eq)



text \<open>
  Claim C6, as the code has it. Every entry of the lifespan context calls
  \<^verbatim>\<open>configure()\<close> exactly once, whatever the call does, whatever requests arrive and
  however serving ends. So a process whose host enters the context exactly once makes
  exactly one call, and no process makes more calls than its host makes entries.
\<close>

theorem configure_called_once_per_entry:
  assumes "length (filter inside phases) = 1"
  shows "count_list (history (host_run cfg phases (fresh t))) ConfigureCalled = 1
       \<and> count_list (history (snd (run_app cfg reqs stop w))) ConfigureCalled
           = Suc (count_list (history w) ConfigureCalled)
       \<and> count_list (history (host_run cfg ps (fresh t))) ConfigureCalled
           \<le> length (filter inside ps)"
proof -
  have "count_list (history (host_run cfg phases (fresh t))) ConfigureCalled = 1"
    using host_run_count_one [OF assms, of cfg "fresh t"] by (simp add: history_fresh)
  moreover have "count_list (history (host_run cfg ps (fresh t))) ConfigureCalled
                   \<le> length (filter inside ps)"
    using host_run_count_le [of cfg ps "fresh t"] by (simp add: history_fresh)
  ultimately show ?thesis
    by (simp add: run_app_count)
qed

theorem configure_called_once_per_entry_witness:
  "count_list (history (host_run (\<lambda>n::nat. (Return (), Suc n))
       [Inside [\<lparr>req_method = ''GET'', req_path = ''/'', req_query = [],
                 req_headers = [], req_body = []\<rparr>,
                \<lparr>req_method = ''GET'', req_path = ''/health'', req_query = [],
                 req_headers = [], req_body = []\<rparr>] None] (fresh 0))) ConfigureCalled = 1"
  using configure_called_once_per_entry
    [of "[Inside [\<lparr>req_method = ''GET'', req_path = ''/'', req_query = [],
                    req_headers = [], req_body = []\<rparr>,
                   \<lparr>req_method = ''GET'', req_path = ''/health'', req_query = [],
                    req_headers = [], req_body = []\<rparr>] None]"
        "\<lambda>n::nat. (Return (), Suc n)" 0]
  by simp

text \<open>
  The claim as the specification words it, exactly once in every process lifetime, does
  not hold: the source does not fix how often the context is entered. A host that serves
  without entering it has a listening service and no call; a host that enters it twice
  makes two calls.
\<close>

theorem configure_call_count_counterexample:
  "count_list (history (host_run (\<lambda>n::nat. (Return (), Suc n))
       [Outside [\<lparr>req_method = ''GET'', req_path = ''/'', req_query = [],
                  req_headers = [], req_body = []\<rparr>]] (fresh 0))) ConfigureCalled = 0
   \<and> Listening \<in> set (history (host_run (\<lambda>n::nat. (Return (), Suc n))
       [Outside [\<lparr>req_method = ''GET'', req_path = ''/'', req_query = [],
                  req_headers = [], req_body = []\<rparr>]] (fresh 0)))
   \<and> count_list (history (host_run (\<lambda>n::nat. (Return (), Suc n))
       [Inside [] None, Inside [] None] (fresh 0))) ConfigureCalled = 2"
  by (simp add: serving_eq run_app_returns fresh_def handle_request_eq)

subsection \<open>The endpoints as functions\<close>

text \<open>
  Claim C5. Any two requests for \<^verbatim>\<open>GET /\<close> get the same status and the same object, and
  so do any two requests for \<^verbatim>\<open>GET /health\<close>: whatever the two requests carry besides
  method and path, whatever the state of the process at either moment, and whatever
  requests were served in between.
\<close>

theorem endpoints_deterministic:
  assumes "req_method r1 = ''GET''" and "req_method r2 = ''GET''"
      and "req_path r1 = req_path r2"
      and "req_path r1 = ''/'' \<or> req_path r1 = ''/health''"
  shows "fst (handle_request r1 w1) = fst (handle_request r2 w2)
       \<and> fst (handle_request r1 (serve_all rs w1)) = fst (handle_request r1 w1)
       \<and> fst (root w1) = fst (root w2)
       \<and> fst (health w1) = fst (health w2)"
  using assms by (auto simp add: handle_request_eq root_def health_def)

theorem endpoints_deterministic_witness:
  "fst (handle_request
         \<lparr>req_method = ''GET'', req_path = ''/'', req_query = ''a=1'',
          req_headers = [(''user-agent'', ''probe'')], req_body = ''x''\<rparr>
         \<lparr>telemetry = (1::nat), history = [Listening]\<rparr>) =
   fst (handle_request
         \<lparr>req_method = ''GET'', req_path = ''/'', req_query = [],
          req_headers = [], req_body = []\<rparr>
         \<lparr>telemetry = (2::nat), history = []\<rparr>)"
  using endpoints_deterministic
    [of "\<lparr>req_method = ''GET'', req_path = ''/'', req_query = ''a=1'',
          req_headers = [(''user-agent'', ''probe'')], req_body = ''x''\<rparr>"
        "\<lparr>req_method = ''GET'', req_path = ''/'', req_query = [],
          req_headers = [], req_body = []\<rparr>"
        "\<lparr>telemetry = (1::nat), history = [Listening]\<rparr>"
        "\<lparr>telemetry = (2::nat), history = []\<rparr>" "[]"]
  by simp

text \<open>
  Claim C7. Serving a request changes nothing: each endpoint hands back the state it was
  given and returns the same value in every state, handling any request leaves the state
  as it was, and the telemetry state is the same after any sequence of requests.
\<close>

theorem endpoints_leave_state_unchanged:
  "snd (root w) = w \<and> snd (health w) = w
   \<and> fst (root w) = fst (root w') \<and> fst (health w) = fst (health w')
   \<and> snd (handle_request r w) = w
   \<and> telemetry (serve_all rs w) = telemetry w"
  by (simp add: root_def health_def handle_request_world serve_all_eq)

text \<open>
  Claim C8. Each endpoint returns a value in every state (it neither raises nor fails to
  come back), and every request for \<^verbatim>\<open>GET /\<close> or \<^verbatim>\<open>GET /health\<close> gets a reply with a
  status and an object, never the framework's error reply and never none.
\<close>

theorem endpoints_never_raise:
  assumes "req_method r = ''GET''" and "req_path r = ''/'' \<or> req_path r = ''/health''"
  shows "(\<exists>b. fst (root w) = Return b) \<and> (\<exists>b. fst (health w) = Return b)
       \<and> (\<exists>c b. fst (handle_request r w) = Reply c b)"
  using assms by (auto simp add: handle_request_eq root_def health_def)

theorem endpoints_never_raise_witness:
  "\<exists>c b. fst (handle_request
         \<lparr>req_method = ''GET'', req_path = ''/health'', req_query = [],
          req_headers = [], req_body = []\<rparr> (fresh (0::nat))) = Reply c b"
  using endpoints_never_raise
    [of "\<lparr>req_method = ''GET'', req_path = ''/health'', req_query = [],
          req_headers = [], req_body = []\<rparr>" "fresh (0::nat)"]
  by simp

subsection \<open>Leaving the lifespan context\<close>




subsection \<open>The two probes agree\<close>

text \<open>
  Claim C10. For every request for \<^verbatim>\<open>GET /\<close> and every request for \<^verbatim>\<open>GET /health\<close>, in
  any two states, the \<^verbatim>\<open>status\<close> fields of the two replies are equal: both are
  \<^verbatim>\<open>healthy\<close>.
\<close>

theorem status_fields_agree:
  assumes "req_method r1 = ''GET''" and "req_path r1 = ''/''"
      and "req_method r2 = ''GET''" and "req_path r2 = ''/health''"
  shows "body_field ''status'' (fst (handle_request r1 w1))
           = body_field ''status'' (fst (handle_request r2 w2))
       \<and> body_field ''status'' (fst (handle_request r1 w1)) = Some ''healthy''"
  using assms by (simp add: handle_request_eq body_field_def)

theorem status_fields_agree_witness:
  "body_field ''status'' (fst (handle_request
         \<lparr>req_method = ''GET'', req_path = ''/'', req_query = [],
          req_headers = [], req_body = []\<rparr> (fresh (0::nat)))) = Some ''healthy''
   \<and> body_field ''status'' (fst (handle_request
         \<lparr>req_method = ''GET'', req_path = ''/health'', req_query = [],
          req_headers = [], req_body = []\<rparr> (fresh (5::nat)))) = Some ''healthy''"
  using status_fields_agree
    [of "\<lparr>req_method = ''GET'', req_path = ''/'', req_query = [],
          req_headers = [], req_body = []\<rparr>"
        "\<lparr>req_method = ''GET'', req_path = ''/health'', req_query = [],
          req_headers = [], req_body = []\<rparr>" "fresh (0::nat)" "fresh (5::nat)"]
  by auto

end
